theory Spec2Isabelle
  imports Main "HOL-Library.Word"
begin

section \<open>Ubuntu Image Fetcher: a shallow embedding of pythonLibraries.py\<close>

text \<open>
  The class \<open>UbuntuImageFetcher\<close> is embedded method by method. Python strings are
  modelled as \<open>string\<close> (lists of 8-bit characters), byte payloads as lists of 8-bit
  words, Python's unbounded integers as \<open>int\<close> (the probe counter, which starts at 1 and
  only grows, as \<open>nat\<close>). Exceptions are values of the datatype \<open>exn\<close>; the mutable
  attributes of the fetcher, the output directory and the console are fields of the record
  \<open>fetcher\<close>, passed in and returned.

  Functions of the Python standard library and of \<open>requests\<close> whose code is not part of
  the repository are parameters, collected in the record \<open>pylib\<close> (pure functions) and in
  the record \<open>env\<close> (the network and the disk). The general theorems below hold for all
  values of these parameters. The concrete instance \<open>demo_lib\<close> is used only to evaluate
  the model on examples.

  The methods are defined twice. The first definitions take the console to accept every
  message, so that printing is an append to the list of messages; they carry the names of
  the source. The definitions with the suffix \<open>_printing\<close> write out that a \<open>print\<close>
  can raise; with a console that accepts every message the two agree, which is proved
  below.
\<close>

subsection \<open>String operations of the language\<close>

type_synonym bytes = "8 word list"

definition lower_char :: "char \<Rightarrow> char" where
  "lower_char c =
     (let n = (of_char c :: nat)
      in if (65 \<le> n \<and> n \<le> 90) \<or> (192 \<le> n \<and> n \<le> 222 \<and> n \<noteq> 215)
         then char_of (n + 32) else c)"

definition lower :: "string \<Rightarrow> string" where
  "lower s = map lower_char s"

definition startswith :: "string \<Rightarrow> string \<Rightarrow> bool" where
  "startswith s p = (take (length p) s = p)"

definition py_isspace :: "char \<Rightarrow> bool" where
  "py_isspace c =
     (let n = (of_char c :: nat)
      in (9 \<le> n \<and> n \<le> 13) \<or> (28 \<le> n \<and> n \<le> 32) \<or> n = 133 \<or> n = 160)"

definition strip :: "string \<Rightarrow> string" where
  "strip s = rev (dropWhile py_isspace (rev (dropWhile py_isspace s)))"

text \<open>\<open>s.split(sep)\<close> for a one-character separator: never the empty list.\<close>

fun split_on :: "char \<Rightarrow> string \<Rightarrow> string list" where
  "split_on sep [] = [[]]"
| "split_on sep (c # cs) =
     (if c = sep then [] # split_on sep cs
      else (c # hd (split_on sep cs)) # tl (split_on sep cs))"

text \<open>\<open>os.path.basename\<close> (posixpath): everything after the last slash.\<close>

definition basename :: "string \<Rightarrow> string" where
  "basename p = rev (takeWhile (\<lambda>c. c \<noteq> CHR ''/'') (rev p))"

text \<open>The decimal rendering of the counter inside the f-string of line 72.\<close>

definition digit_char :: "nat \<Rightarrow> char" where
  "digit_char d = char_of (48 + d)"

fun str_nat :: "nat \<Rightarrow> string" where
  "str_nat n = (if n < 10 then [digit_char n] else str_nat (n div 10) @ [digit_char (n mod 10)])"

declare str_nat.simps [simp del]

subsection \<open>Library functions taken as parameters\<close>

record pylib =
  urlparse_path :: "string \<Rightarrow> string"
  unquote :: "string \<Rightarrow> string"
  sha256_hexdigest :: "bytes \<Rightarrow> string"
  int_of_str :: "string \<Rightarrow> int option"
  true_div_overflows :: "int \<Rightarrow> bool"
  path_stem :: "string \<Rightarrow> string"
  path_suffix :: "string \<Rightarrow> string"

text \<open>
  \<^item> \<open>urlparse_path L url\<close> is \<open>urlparse(url).path\<close>;
  \<^item> \<open>unquote L s\<close> is \<open>urllib.parse.unquote(s)\<close>;
  \<^item> \<open>sha256_hexdigest L b\<close> is \<open>hashlib.sha256(b).hexdigest()\<close>;
  \<^item> \<open>int_of_str L s\<close> is \<open>int(s)\<close>, \<open>None\<close> when it raises \<open>ValueError\<close>;
  \<^item> \<open>true_div_overflows L n\<close> holds when the float division \<open>n / (1024 * 1024)\<close> of
    line 110 raises \<open>OverflowError\<close>, the quotient being too large for a float;
  \<^item> \<open>path_stem L f\<close> and \<open>path_suffix L f\<close> are \<open>(self.download_dir / f).stem\<close> and
    \<open>(self.download_dir / f).suffix\<close>.
\<close>

subsection \<open>Exceptions, responses, the environment and the fetcher's state\<close>

datatype exn =
    Timeout
  | ConnectionError
  | HTTPError nat string
  | InvalidContentType string
  | PayloadTooLarge int
  | IntLiteralError string
  | UnicodeEncodeError
  | OtherValueError
  | OverflowError
  | OtherException

text \<open>
  \<open>InvalidContentType\<close> and \<open>PayloadTooLarge\<close> are the two \<open>ValueError\<close>s raised at lines
  105 and 111; \<open>IntLiteralError\<close> is the \<open>ValueError\<close> of \<open>int()\<close> at line 109;
  \<open>UnicodeEncodeError\<close> is the \<open>ValueError\<close> that \<open>print\<close> raises for a text the
  console cannot encode; \<open>OtherValueError\<close> is any other \<open>ValueError\<close>;
  \<open>OverflowError\<close> is raised by the division of line 110 and is not a \<open>ValueError\<close>;
  \<open>OtherException\<close> is any other subclass of \<open>Exception\<close> (an \<open>OSError\<close> of the disk,
  for instance).
\<close>

record response =
  http_error :: "(nat \<times> string) option"
  content_type_header :: "string option"
  content_length_header :: "string option"
  body :: "exn + bytes"

text \<open>
  \<open>http_error r = Some (code, reason)\<close> when \<open>r.raise_for_status()\<close> raises \<open>HTTPError\<close>;
  \<open>body r\<close> is what reading \<open>r.content\<close> gives (the request is made with
  \<open>stream=True\<close>, so the body is read there and reading may raise).
\<close>

datatype write_outcome = Written | OpenFailed | WriteFailed

record env =
  http_get :: "nat \<Rightarrow> string \<Rightarrow> exn + response"
  disk_write :: "string \<Rightarrow> bytes \<Rightarrow> write_outcome"

text \<open>
  \<open>http_get E n url\<close> is the outcome of the \<open>n\<close>-th call \<open>requests.get(url, ...)\<close> of the
  run (counted from 0); \<open>disk_write E name content\<close> is the outcome of lines 144 and 145:
  \<open>Written\<close>, \<open>OpenFailed\<close> (\<open>open\<close> raised, no file was created) or \<open>WriteFailed\<close> (the
  file was created and \<open>f.write\<close> raised).
\<close>

datatype msg =
    Connecting string
  | IdenticalTo string
  | Fetched string string
  | TimeoutMsg string
  | CannotConnect string
  | ServerError string nat string
  | InvalidImage string exn
  | UnexpectedError string exn

record fetcher =
  downloaded_hashes :: "string \<rightharpoonup> string"
  existing :: "string list"
  written :: "(string \<times> bytes) list"
  requests :: "string list"
  console :: "msg list"

text \<open>
  \<open>existing\<close> lists the names \<open>n\<close> for which \<open>(self.download_dir / n).exists()\<close> holds
  (in a real directory \<open>.\<close> and \<open>..\<close> are always among them),
  \<open>written\<close> the files this run has written in full (newest first), \<open>requests\<close> the URLs
  requested so far (oldest first), \<open>console\<close> the messages printed (oldest first).
\<close>

definition max_file_size :: int where
  "max_file_size = 50 * 1024 * 1024"

subsection \<open>Filename resolution\<close>

definition extensions :: "(string \<times> string) list" where
  "extensions =
     [(''image/jpeg'', ''.jpg''),
      (''image/png'', ''.png''),
      (''image/gif'', ''.gif''),
      (''image/webp'', ''.webp''),
      (''image/bmp'', ''.bmp''),
      (''image/svg+xml'', ''.svg'')]"

definition get_extension_from_content_type :: "string option \<Rightarrow> string" where
  "get_extension_from_content_type content_type =
     (case content_type of
        None \<Rightarrow> ''.jpg''
      | Some ct \<Rightarrow>
          if ct = [] then ''.jpg''
          else (case map_of extensions (lower ct) of None \<Rightarrow> ''.jpg'' | Some e \<Rightarrow> e))"

definition safe_chars :: string where
  "safe_chars = ''abcdefghijklmnopqrstuvwxyzABCDEFGHIJKLMNOPQRSTUVWXYZ0123456789.-_''"

definition sanitize :: "string \<Rightarrow> string" where
  "sanitize filename = map (\<lambda>c. if c \<in> set safe_chars then c else CHR ''_'') filename"

text \<open>
  \<open>url_basename\<close> is line 27, the percent-decoded last segment of the URL's path;
  \<open>candidate_filename\<close> is the value of \<open>filename\<close> after line 32, before it is
  sanitized; \<open>sanitize\<close> is line 36.
\<close>

definition url_basename :: "pylib \<Rightarrow> string \<Rightarrow> string" where
  "url_basename L url = unquote L (basename (urlparse_path L url))"

definition candidate_filename :: "pylib \<Rightarrow> string \<Rightarrow> string option \<Rightarrow> string" where
  "candidate_filename L url content_type =
     (let filename = url_basename L url
      in if filename = [] \<or> CHR ''.'' \<notin> set filename
         then ''downloaded_image'' @ get_extension_from_content_type content_type
         else filename)"

definition get_safe_filename :: "pylib \<Rightarrow> string \<Rightarrow> string option \<Rightarrow> string" where
  "get_safe_filename L url content_type = sanitize (candidate_filename L url content_type)"

subsection \<open>Collision resolution\<close>

definition probe_name :: "string \<Rightarrow> string \<Rightarrow> nat \<Rightarrow> string" where
  "probe_name stem suffix counter = stem @ ''_'' @ str_nat counter @ suffix"

text \<open>
  The probe loop of lines 71 to 76 ends because the decimal rendering of the counter is
  injective, so that only finitely many probe names can be among the existing names.
\<close>

definition digits_value :: "string \<Rightarrow> nat" where
  "digits_value s = foldl (\<lambda>a c. 10 * a + (of_char c - 48)) 0 s"

lemma digits_value_snoc: "digits_value (s @ [c]) = 10 * digits_value s + (of_char c - 48)"
  by (simp add: digits_value_def)

lemma of_char_digit_char: "d < 10 \<Longrightarrow> (of_char (digit_char d) :: nat) = 48 + d"
  by (simp add: digit_char_def)

lemma digits_value_str_nat: "digits_value (str_nat n) = n"
proof (induction n rule: str_nat.induct)
  case (1 n)
  show ?case
  proof (cases "n < 10")
    case True
    then show ?thesis
      by (subst str_nat.simps) (simp add: digits_value_def of_char_digit_char)
  next
    case False
    have "digits_value (str_nat n) = digits_value (str_nat (n div 10) @ [digit_char (n mod 10)])"
      using False by (subst str_nat.simps) simp
    also have "\<dots> = 10 * (n div 10) + n mod 10"
      using 1 False by (simp add: digits_value_snoc of_char_digit_char)
    finally show ?thesis by simp
  qed
qed

lemma str_nat_inj: "str_nat a = str_nat b \<Longrightarrow> a = b"
  by (metis digits_value_str_nat)

lemma probe_name_inj: "probe_name stem suffix a = probe_name stem suffix b \<Longrightarrow> a = b"
  by (simp add: probe_name_def str_nat_inj)

lemma finite_probes: "finite {k. probe_name stem suffix k \<in> set names}"
proof -
  have "inj_on (probe_name stem suffix) {k. probe_name stem suffix k \<in> set names}"
    by (rule inj_onI) (rule probe_name_inj)
  moreover have "probe_name stem suffix ` {k. probe_name stem suffix k \<in> set names} \<subseteq> set names"
    by auto
  ultimately show ?thesis
    by (meson finite_imageD finite_subset List.finite_set)
qed

text \<open>The \<open>while True\<close> loop of \<open>get_unique_filename\<close>, from the current counter on.\<close>

function probe :: "string list \<Rightarrow> string \<Rightarrow> string \<Rightarrow> nat \<Rightarrow> string" where
  "probe names stem suffix counter =
     (let new_filename = probe_name stem suffix counter
      in if new_filename \<notin> set names then new_filename
         else probe names stem suffix (counter + 1))"
  by pat_completeness auto
termination
proof (relation "measure (\<lambda>(names, stem, suffix, counter).
          card {k. counter \<le> k \<and> probe_name stem suffix k \<in> set names})")
  show "wf (measure (\<lambda>(names, stem, suffix, counter).
          card {k. counter \<le> k \<and> probe_name stem suffix k \<in> set names}))"
    by simp
next
  fix names :: "string list" and stem suffix :: string and counter :: nat and x :: string
  assume x: "x = probe_name stem suffix counter" and mem: "\<not> x \<notin> set names"
  let ?A = "{k. counter \<le> k \<and> probe_name stem suffix k \<in> set names}"
  let ?B = "{k. counter + 1 \<le> k \<and> probe_name stem suffix k \<in> set names}"
  have fin: "finite ?A"
    by (rule finite_subset [OF _ finite_probes [of stem suffix names]]) auto
  have "counter \<in> ?A" using x mem by simp
  moreover have "counter \<notin> ?B" by simp
  moreover have "?B \<subseteq> ?A" by auto
  ultimately have "?B \<subset> ?A" by blast
  then have "card ?B < card ?A" using fin by (rule psubset_card_mono [rotated])
  then show "((names, stem, suffix, counter + 1), (names, stem, suffix, counter))
        \<in> measure (\<lambda>(names, stem, suffix, counter).
          card {k. counter \<le> k \<and> probe_name stem suffix k \<in> set names})"
    by simp
qed

declare probe.simps [simp del]

definition get_unique_filename :: "pylib \<Rightarrow> string list \<Rightarrow> string \<Rightarrow> string" where
  "get_unique_filename L names filename =
     (if filename \<notin> set names then filename
      else probe names (path_stem L filename) (path_suffix L filename) 1)"

subsection \<open>Deduplication by content\<close>

definition calculate_file_hash :: "pylib \<Rightarrow> bytes \<Rightarrow> string" where
  "calculate_file_hash L content = sha256_hexdigest L content"

definition is_duplicate_content :: "pylib \<Rightarrow> bytes \<Rightarrow> string \<Rightarrow> fetcher \<Rightarrow> bool \<times> fetcher" where
  "is_duplicate_content L content filename st =
     (let file_hash = calculate_file_hash L content
      in case downloaded_hashes st file_hash of
           Some existing_file \<Rightarrow> (True, st\<lparr>console := console st @ [IdenticalTo existing_file]\<rparr>)
         | None \<Rightarrow> (False, st\<lparr>downloaded_hashes := (downloaded_hashes st)(file_hash \<mapsto> filename)\<rparr>))"

subsection \<open>Response validation\<close>

definition validate_image_response :: "pylib \<Rightarrow> response \<Rightarrow> exn + string" where
  "validate_image_response L r =
     (let content_type = lower (case content_type_header r of None \<Rightarrow> [] | Some v \<Rightarrow> v)
      in if \<not> startswith content_type ''image/'' then Inl (InvalidContentType content_type)
         else (case content_length_header r of
                 None \<Rightarrow> Inr content_type
               | Some content_length \<Rightarrow>
                   if content_length = [] then Inr content_type
                   else (case int_of_str L content_length of
                           None \<Rightarrow> Inl (IntLiteralError content_length)
                         | Some n \<Rightarrow>
                             if n > max_file_size then
                               (if true_div_overflows L n then Inl OverflowError
                                else Inl (PayloadTooLarge n))
                             else Inr content_type)))"

subsection \<open>The per-URL pipeline\<close>

text \<open>
  \<open>save_file\<close> is lines 140 to 152, \<open>try_fetch\<close> the whole \<open>try\<close> block: its first
  component is the exception raised, or the value returned. The state is returned in both
  cases, since what the block has done before raising stays done.
\<close>

definition save_file :: "pylib \<Rightarrow> env \<Rightarrow> string \<Rightarrow> bytes \<Rightarrow> fetcher \<Rightarrow> (exn + bool) \<times> fetcher" where
  "save_file L E filename content st =
     (let unique_filename = get_unique_filename L (existing st) filename
      in case disk_write E unique_filename content of
           OpenFailed \<Rightarrow> (Inl OtherException, st)
         | WriteFailed \<Rightarrow> (Inl OtherException, st\<lparr>existing := unique_filename # existing st\<rparr>)
         | Written \<Rightarrow>
             (Inr True,
              st\<lparr>existing := unique_filename # existing st,
                 written := (unique_filename, content) # written st,
                 console := console st @ [Fetched filename unique_filename]\<rparr>))"

definition try_fetch :: "pylib \<Rightarrow> env \<Rightarrow> string \<Rightarrow> fetcher \<Rightarrow> (exn + bool) \<times> fetcher" where
  "try_fetch L E url st =
     (let st1 = st\<lparr>console := console st @ [Connecting url], requests := requests st @ [url]\<rparr>
      in case http_get E (length (requests st)) url of
           Inl e \<Rightarrow> (Inl e, st1)
         | Inr r \<Rightarrow>
             (case http_error r of
                Some (code, reason) \<Rightarrow> (Inl (HTTPError code reason), st1)
              | None \<Rightarrow>
                  (case validate_image_response L r of
                     Inl e \<Rightarrow> (Inl e, st1)
                   | Inr content_type \<Rightarrow>
                       (let filename = get_safe_filename L url (Some content_type)
                        in case body r of
                             Inl e \<Rightarrow> (Inl e, st1)
                           | Inr content \<Rightarrow>
                               (case is_duplicate_content L content filename st1 of
                                  (True, st2) \<Rightarrow> (Inr False, st2)
                                | (False, st2) \<Rightarrow> save_file L E filename content st2)))))"

text \<open>The \<open>except\<close> clauses of lines 154 to 172, in the order of the source.\<close>

fun handler_msg :: "string \<Rightarrow> exn \<Rightarrow> msg" where
  "handler_msg url Timeout = TimeoutMsg url"
| "handler_msg url ConnectionError = CannotConnect url"
| "handler_msg url (HTTPError code reason) = ServerError url code reason"
| "handler_msg url (InvalidContentType ct) = InvalidImage url (InvalidContentType ct)"
| "handler_msg url (PayloadTooLarge n) = InvalidImage url (PayloadTooLarge n)"
| "handler_msg url (IntLiteralError s) = InvalidImage url (IntLiteralError s)"
| "handler_msg url UnicodeEncodeError = InvalidImage url UnicodeEncodeError"
| "handler_msg url OtherValueError = InvalidImage url OtherValueError"
| "handler_msg url OverflowError = UnexpectedError url OverflowError"
| "handler_msg url OtherException = UnexpectedError url OtherException"

definition fetch_single_image :: "pylib \<Rightarrow> env \<Rightarrow> string \<Rightarrow> fetcher \<Rightarrow> bool \<times> fetcher" where
  "fetch_single_image L E url st =
     (case try_fetch L E url st of
        (Inr b, st') \<Rightarrow> (b, st')
      | (Inl e, st') \<Rightarrow> (False, st'\<lparr>console := console st' @ [handler_msg url e]\<rparr>))"

subsection \<open>The batch operation\<close>

datatype urls_arg = UrlString string | UrlList "string list"

text \<open>The \<open>for\<close> loop of lines 187 to 191, with the running success count.\<close>

fun fetch_loop :: "pylib \<Rightarrow> env \<Rightarrow> string list \<Rightarrow> int \<Rightarrow> fetcher \<Rightarrow> int \<times> fetcher" where
  "fetch_loop L E [] successful st = (successful, st)"
| "fetch_loop L E (u # us) successful st =
     (let url = strip u
      in if url \<noteq> [] then
           (case fetch_single_image L E url st of
              (True, st') \<Rightarrow> fetch_loop L E us (successful + 1) st'
            | (False, st') \<Rightarrow> fetch_loop L E us successful st')
         else fetch_loop L E us successful st)"

definition fetch_images :: "pylib \<Rightarrow> env \<Rightarrow> urls_arg \<Rightarrow> fetcher \<Rightarrow> (int \<times> int) \<times> fetcher" where
  "fetch_images L E urls st =
     (let urls = (case urls of
                    UrlString s \<Rightarrow> map strip (split_on CHR '','' s)
                  | UrlList us \<Rightarrow> us);
          total = int (length urls);
          (successful, st') = fetch_loop L E urls 0 st
      in ((successful, total), st'))"

text \<open>The state after \<open>__init__\<close>, for a download directory with the given names in it.\<close>

definition init :: "string list \<Rightarrow> fetcher" where
  "init names =
     \<lparr>downloaded_hashes = Map.empty, existing = names, written = [], requests = [], console = []\<rparr>"

subsection \<open>An instance of the library parameters, for examples\<close>

text \<open>
  \<open>demo_lib\<close> gives the library parameters concrete values, so that the model can be run
  on examples. \<open>demo_url_path\<close> is the path of a URL of the form
  \<open>scheme://authority/path?query#fragment\<close>; \<open>demo_unquote\<close> decodes \<open>%XX\<close> escapes to
  single characters; \<open>demo_int\<close> reads a decimal literal with an optional sign;
  \<open>demo_div_overflows\<close> holds from the least magnitude whose quotient by \<open>2 ^ 20\<close> rounds
  to \<open>2 ^ 1024\<close>, beyond the largest float;
  \<open>demo_stem\<close> and \<open>demo_suffix\<close> split a plain file name at its last dot as
  \<open>pathlib\<close> does. \<open>demo_digest\<close> is not SHA-256 but an injective stand-in (the decimal
  rendering of the bytes): the theorems hold for every digest function, and the examples
  need only some function.
\<close>

fun drop_scheme :: "string \<Rightarrow> string option" where
  "drop_scheme [] = None"
| "drop_scheme (c # rest) =
     (if take 3 (c # rest) = ''://'' then Some (drop 2 rest) else drop_scheme rest)"

definition demo_url_path :: "string \<Rightarrow> string" where
  "demo_url_path url =
     (let rest = (case drop_scheme url of
                    None \<Rightarrow> url
                  | Some r \<Rightarrow> dropWhile (\<lambda>c. c \<notin> set ''/?#'') r)
      in takeWhile (\<lambda>c. c \<notin> set ''?#'') rest)"

definition hex_value :: "char \<Rightarrow> nat option" where
  "hex_value c =
     (let n = (of_char c :: nat)
      in if 48 \<le> n \<and> n \<le> 57 then Some (n - 48)
         else if 65 \<le> n \<and> n \<le> 70 then Some (n - 55)
         else if 97 \<le> n \<and> n \<le> 102 then Some (n - 87)
         else None)"

fun demo_unquote :: "string \<Rightarrow> string" where
  "demo_unquote (c # a # b # rest) =
     (if c = CHR ''%'' then
        (case (hex_value a, hex_value b) of
           (Some x, Some y) \<Rightarrow> char_of (16 * x + y) # demo_unquote rest
         | _ \<Rightarrow> c # demo_unquote (a # b # rest))
      else c # demo_unquote (a # b # rest))"
| "demo_unquote s = s"

definition demo_digest :: "bytes \<Rightarrow> string" where
  "demo_digest content = concat (map (\<lambda>w. [digit_char (unat w div 100), digit_char (unat w div 10 mod 10), digit_char (unat w mod 10)]) content)"

definition demo_int :: "string \<Rightarrow> int option" where
  "demo_int s =
     (let t = strip s;
          (neg, ds) = (case t of
                         c # r \<Rightarrow> if c = CHR ''-'' then (True, r)
                                  else if c = CHR ''+'' then (False, r) else (False, t)
                       | [] \<Rightarrow> (False, t));
          v = foldl (\<lambda>a c. 10 * a + (of_char c - 48)) (0 :: int) ds
      in if ds \<noteq> [] \<and> list_all (\<lambda>c. 48 \<le> (of_char c :: nat) \<and> (of_char c :: nat) \<le> 57) ds
         then Some (if neg then - v else v)
         else None)"

definition demo_div_overflows :: "int \<Rightarrow> bool" where
  "demo_div_overflows n = (2 ^ 1044 - 2 ^ 990 \<le> \<bar>n\<bar>)"

definition demo_suffix :: "string \<Rightarrow> string" where
  "demo_suffix name =
     (let ext = rev (takeWhile (\<lambda>c. c \<noteq> CHR ''.'') (rev name))
      in if CHR ''.'' \<in> set name \<and> ext \<noteq> [] \<and> Suc (length ext) < length name
         then CHR ''.'' # ext else [])"

definition demo_stem :: "string \<Rightarrow> string" where
  "demo_stem name = take (length name - length (demo_suffix name)) name"

definition demo_lib :: pylib where
  "demo_lib =
     \<lparr>urlparse_path = demo_url_path, unquote = demo_unquote, sha256_hexdigest = demo_digest,
      int_of_str = demo_int, true_div_overflows = demo_div_overflows,
      path_stem = demo_stem, path_suffix = demo_suffix\<rparr>"

text \<open>Control characters: the C0 range and DEL.\<close>

definition is_control :: "char \<Rightarrow> bool" where
  "is_control c = ((of_char c :: nat) < 32 \<or> (of_char c :: nat) = 127)"

subsection \<open>Observations, the specification's wording and example environments\<close>

text \<open>
  The extension table as the specification words it, to compare the code with.
\<close>

definition table_extension :: "string \<Rightarrow> string" where
  "table_extension ct =
     (if ct = ''image/jpeg'' then ''.jpg''
      else if ct = ''image/png'' then ''.png''
      else if ct = ''image/gif'' then ''.gif''
      else if ct = ''image/webp'' then ''.webp''
      else if ct = ''image/bmp'' then ''.bmp''
      else if ct = ''image/svg+xml'' then ''.svg''
      else ''.jpg'')"

text \<open>
  What the specification calls a case-insensitive prefix: the two strings agree on the
  length of the prefix once both are lowered.
\<close>

definition starts_with_ignoring_case :: "string \<Rightarrow> string \<Rightarrow> bool" where
  "starts_with_ignoring_case s p = (map lower_char (take (length p) s) = map lower_char p)"

text \<open>\<open>response.headers.get('Content-Type', '')\<close>, before it is lowered.\<close>

definition content_type_of :: "response \<Rightarrow> string" where
  "content_type_of r = (case content_type_header r of None \<Rightarrow> [] | Some v \<Rightarrow> v)"

text \<open>
  The declared length is an integer so large that its size in MiB, computed at line 110
  for the message, is not a float.
\<close>

definition size_overflows :: "pylib \<Rightarrow> response \<Rightarrow> bool" where
  "size_overflows L r =
     (case content_length_header r of
        None \<Rightarrow> False
      | Some cl \<Rightarrow> (case int_of_str L cl of None \<Rightarrow> False | Some n \<Rightarrow> true_div_overflows L n))"

text \<open>
  \<open>downloaded L E url st\<close> observes a fetch that gets as far as line 133: the filename of
  line 130 and the payload read in full at line 133; \<open>None\<close> when the fetch raises before.
\<close>

definition downloaded :: "pylib \<Rightarrow> env \<Rightarrow> string \<Rightarrow> fetcher \<Rightarrow> (string \<times> bytes) option" where
  "downloaded L E url st =
     (case http_get E (length (requests st)) url of
        Inl e \<Rightarrow> None
      | Inr r \<Rightarrow>
          (case http_error r of
             Some err \<Rightarrow> None
           | None \<Rightarrow>
               (case validate_image_response L r of
                  Inl e \<Rightarrow> None
                | Inr content_type \<Rightarrow>
                    (case body r of
                       Inl e \<Rightarrow> None
                     | Inr content \<Rightarrow> Some (get_safe_filename L url (Some content_type), content)))))"

text \<open>The state once line 120 has printed and line 123 has made its request.\<close>

definition connected :: "string \<Rightarrow> fetcher \<Rightarrow> fetcher" where
  "connected url st = st\<lparr>console := console st @ [Connecting url], requests := requests st @ [url]\<rparr>"

text \<open>
  An environment for examples: every request is answered with the same three-byte PNG, and
  every write succeeds.
\<close>

definition png_response :: "bytes \<Rightarrow> response" where
  "png_response content =
     \<lparr>http_error = None, content_type_header = Some ''image/png'',
      content_length_header = None, body = Inr content\<rparr>"

definition demo_env :: env where
  "demo_env =
     \<lparr>http_get = (\<lambda>n url. Inr (png_response [1, 2, 3])),
      disk_write = (\<lambda>name content. Written)\<rparr>"

text \<open>The states after a first fetch into an empty directory, and into one that holds \<open>a.png\<close>.\<close>

definition after_first :: fetcher where
  "after_first = snd (fetch_single_image demo_lib demo_env ''http://x/a.png'' (init []))"

definition after_renamed :: fetcher where
  "after_renamed = snd (fetch_single_image demo_lib demo_env ''http://x/a.png'' (init [''a.png'']))"

text \<open>An environment whose first request times out; every later one is answered.\<close>

definition flaky_env :: env where
  "flaky_env =
     \<lparr>http_get = (\<lambda>n url. if n = 0 then Inl Timeout else Inr (png_response [1, 2, 3])),
      disk_write = (\<lambda>name content. Written)\<rparr>"

text \<open>The state after the first fetch of that environment.\<close>

definition after_timeout :: fetcher where
  "after_timeout = snd (fetch_single_image demo_lib flaky_env ''http://x/a.png'' (init []))"

text \<open>The disk of \<open>demo_env\<close>, except that \<open>open\<close> raises for every name.\<close>

definition failing_disk_env :: env where
  "failing_disk_env = demo_env\<lparr>disk_write := (\<lambda>name content. OpenFailed)\<rparr>"


subsection \<open>The pipeline with a console that can refuse a message\<close>

text \<open>
  The definitions above take the console to accept every message. In the source each
  message is a \<open>print\<close>, which raises \<open>UnicodeEncodeError\<close> for a text that the encoding
  of the console does not have. The definitions below are the same methods with that
  failure written out: \<open>P m\<close> holds when printing the message \<open>m\<close> raises. The
  lines that one message stands for (148 and 149, or the two lines of a handler) are
  printed together, and the blank lines printed at 150 and 174 show no text and are left
  out.
\<close>

definition print_line :: "(msg \<Rightarrow> bool) \<Rightarrow> msg \<Rightarrow> fetcher \<Rightarrow> exn + fetcher" where
  "print_line P m st =
     (if P m then Inl UnicodeEncodeError else Inr (st\<lparr>console := console st @ [m]\<rparr>))"

definition is_duplicate_content_printing ::
    "(msg \<Rightarrow> bool) \<Rightarrow> pylib \<Rightarrow> bytes \<Rightarrow> string \<Rightarrow> fetcher \<Rightarrow> (exn + bool) \<times> fetcher" where
  "is_duplicate_content_printing P L content filename st =
     (let file_hash = calculate_file_hash L content
      in case downloaded_hashes st file_hash of
           Some existing_file \<Rightarrow>
             (case print_line P (IdenticalTo existing_file) st of
                Inl e \<Rightarrow> (Inl e, st)
              | Inr st' \<Rightarrow> (Inr True, st'))
         | None \<Rightarrow>
             (Inr False, st\<lparr>downloaded_hashes := (downloaded_hashes st)(file_hash \<mapsto> filename)\<rparr>))"

definition save_file_printing ::
    "(msg \<Rightarrow> bool) \<Rightarrow> pylib \<Rightarrow> env \<Rightarrow> string \<Rightarrow> bytes \<Rightarrow> fetcher \<Rightarrow> (exn + bool) \<times> fetcher" where
  "save_file_printing P L E filename content st =
     (let unique_filename = get_unique_filename L (existing st) filename
      in case disk_write E unique_filename content of
           OpenFailed \<Rightarrow> (Inl OtherException, st)
         | WriteFailed \<Rightarrow> (Inl OtherException, st\<lparr>existing := unique_filename # existing st\<rparr>)
         | Written \<Rightarrow>
             (let st1 = st\<lparr>existing := unique_filename # existing st,
                            written := (unique_filename, content) # written st\<rparr>
              in case print_line P (Fetched filename unique_filename) st1 of
                   Inl e \<Rightarrow> (Inl e, st1)
                 | Inr st2 \<Rightarrow> (Inr True, st2)))"

definition try_fetch_printing ::
    "(msg \<Rightarrow> bool) \<Rightarrow> pylib \<Rightarrow> env \<Rightarrow> string \<Rightarrow> fetcher \<Rightarrow> (exn + bool) \<times> fetcher" where
  "try_fetch_printing P L E url st =
     (case print_line P (Connecting url) st of
        Inl e \<Rightarrow> (Inl e, st)
      | Inr st0 \<Rightarrow>
          (let st1 = st0\<lparr>requests := requests st @ [url]\<rparr>
           in case http_get E (length (requests st)) url of
                Inl e \<Rightarrow> (Inl e, st1)
              | Inr r \<Rightarrow>
                  (case http_error r of
                     Some (code, reason) \<Rightarrow> (Inl (HTTPError code reason), st1)
                   | None \<Rightarrow>
                       (case validate_image_response L r of
                          Inl e \<Rightarrow> (Inl e, st1)
                        | Inr content_type \<Rightarrow>
                            (let filename = get_safe_filename L url (Some content_type)
                             in case body r of
                                  Inl e \<Rightarrow> (Inl e, st1)
                                | Inr content \<Rightarrow>
                                    (case is_duplicate_content_printing P L content filename st1 of
                                       (Inl e, st2) \<Rightarrow> (Inl e, st2)
                                     | (Inr True, st2) \<Rightarrow> (Inr False, st2)
                                     | (Inr False, st2) \<Rightarrow>
                                         save_file_printing P L E filename content st2))))))"

text \<open>
  The handlers print outside the \<open>try\<close> block: what such a \<open>print\<close> raises leaves
  \<open>fetch_single_image\<close>, and then the loop and \<open>fetch_images\<close>, which have no handler.
\<close>

definition fetch_single_image_printing ::
    "(msg \<Rightarrow> bool) \<Rightarrow> pylib \<Rightarrow> env \<Rightarrow> string \<Rightarrow> fetcher \<Rightarrow> (exn + bool) \<times> fetcher" where
  "fetch_single_image_printing P L E url st =
     (case try_fetch_printing P L E url st of
        (Inr b, st') \<Rightarrow> (Inr b, st')
      | (Inl e, st') \<Rightarrow>
          (case print_line P (handler_msg url e) st' of
             Inl e' \<Rightarrow> (Inl e', st')
           | Inr st'' \<Rightarrow> (Inr False, st'')))"

fun fetch_loop_printing ::
    "(msg \<Rightarrow> bool) \<Rightarrow> pylib \<Rightarrow> env \<Rightarrow> string list \<Rightarrow> int \<Rightarrow> fetcher \<Rightarrow> (exn + int) \<times> fetcher" where
  "fetch_loop_printing P L E [] successful st = (Inr successful, st)"
| "fetch_loop_printing P L E (u # us) successful st =
     (let url = strip u
      in if url \<noteq> [] then
           (case fetch_single_image_printing P L E url st of
              (Inl e, st') \<Rightarrow> (Inl e, st')
            | (Inr True, st') \<Rightarrow> fetch_loop_printing P L E us (successful + 1) st'
            | (Inr False, st') \<Rightarrow> fetch_loop_printing P L E us successful st')
         else fetch_loop_printing P L E us successful st)"

definition fetch_images_printing ::
    "(msg \<Rightarrow> bool) \<Rightarrow> pylib \<Rightarrow> env \<Rightarrow> urls_arg \<Rightarrow> fetcher \<Rightarrow> (exn + int \<times> int) \<times> fetcher" where
  "fetch_images_printing P L E urls st =
     (let urls = (case urls of
                    UrlString s \<Rightarrow> map strip (split_on CHR '','' s)
                  | UrlList us \<Rightarrow> us);
          total = int (length urls)
      in case fetch_loop_printing P L E urls 0 st of
           (Inl e, st') \<Rightarrow> (Inl e, st')
         | (Inr successful, st') \<Rightarrow> (Inr (successful, total), st'))"

text \<open>A URL with a character outside ASCII, which an ASCII console cannot encode.\<close>

definition unprintable_url :: string where
  "unprintable_url = ''http://x/caf'' @ [CHR 0xE9] @ ''.png''"

text \<open>A console that cannot encode the given URL: every message that shows it is refused.\<close>

fun shows_url :: "string \<Rightarrow> msg \<Rightarrow> bool" where
  "shows_url u (Connecting url) = (url = u)"
| "shows_url u (IdenticalTo f) = False"
| "shows_url u (Fetched f g) = False"
| "shows_url u (TimeoutMsg url) = (url = u)"
| "shows_url u (CannotConnect url) = (url = u)"
| "shows_url u (ServerError url code reason) = (url = u)"
| "shows_url u (InvalidImage url e) = (url = u)"
| "shows_url u (UnexpectedError url e) = (url = u)"

section \<open>Properties\<close>

subsection \<open>Filename resolution\<close>

lemma sanitize_safe: "c \<in> set (sanitize s) \<Longrightarrow> c \<in> set safe_chars"
  by (auto simp: sanitize_def safe_chars_def)

lemma slash_unsafe: "CHR ''/'' \<notin> set safe_chars" "CHR 0x5C \<notin> set safe_chars"
  by (simp_all add: safe_chars_def)

lemma safe_chars_printable: "c \<in> set safe_chars \<Longrightarrow> 32 < (of_char c :: nat) \<and> (of_char c :: nat) < 127"
  by (auto simp: safe_chars_def)


text \<open>
  The allow-list. For every URL and optional content type, \<open>get_safe_filename\<close>
  returns the candidate filename with each character outside the allow-list replaced by an
  underscore. Every character of the result is in the allow-list; so the result has no
  slash, no backslash and no control character, hence no \<open>..\<close> followed by a separator;
  and the result is a non-empty string.
\<close>

theorem get_safe_filename_allowed:
  "get_safe_filename L url content_type
     = map (\<lambda>c. if c \<in> set safe_chars then c else CHR ''_'') (candidate_filename L url content_type)
   \<and> (\<forall>c \<in> set (get_safe_filename L url content_type).
         c \<in> set safe_chars \<and> c \<noteq> CHR ''/'' \<and> c \<noteq> CHR 0x5C \<and> \<not> is_control c)
   \<and> (\<forall>xs ys. get_safe_filename L url content_type \<noteq> xs @ ''../'' @ ys)
   \<and> get_safe_filename L url content_type \<noteq> []"
proof -
  let ?r = "get_safe_filename L url content_type"
  have eq: "?r = map (\<lambda>c. if c \<in> set safe_chars then c else CHR ''_'') (candidate_filename L url content_type)"
    by (simp add: get_safe_filename_def sanitize_def)
  have safe: "c \<in> set safe_chars" if "c \<in> set ?r" for c
    using that by (simp add: get_safe_filename_def sanitize_safe)
  have chars: "\<forall>c \<in> set ?r. c \<in> set safe_chars \<and> c \<noteq> CHR ''/'' \<and> c \<noteq> CHR 0x5C \<and> \<not> is_control c"
  proof
    fix c assume c: "c \<in> set ?r"
    have s: "c \<in> set safe_chars" by (rule safe [OF c])
    show "c \<in> set safe_chars \<and> c \<noteq> CHR ''/'' \<and> c \<noteq> CHR 0x5C \<and> \<not> is_control c"
      using s slash_unsafe safe_chars_printable [OF s] by (auto simp: is_control_def)
  qed
  have trav: "?r \<noteq> xs @ ''../'' @ ys" for xs ys
  proof
    assume "?r = xs @ ''../'' @ ys"
    then have "CHR ''/'' \<in> set ?r" by simp
    with chars show False by blast
  qed
  have "candidate_filename L url content_type \<noteq> []"
    by (auto simp: candidate_filename_def Let_def)
  then have ne: "?r \<noteq> []" by (simp add: get_safe_filename_def sanitize_def)
  from eq chars trav ne show ?thesis by blast
qed


text \<open>An example: the space and the parentheses of the decoded name become underscores.\<close>

theorem get_safe_filename_allowed_witness:
  "get_safe_filename demo_lib ''http://example.com/dir/my%20photo(1).png?x=1'' None = ''my_photo_1_.png''
   \<and> list_all (\<lambda>c. c \<in> set safe_chars) ''my_photo_1_.png''"
proof -
  have e: "get_safe_filename demo_lib ''http://example.com/dir/my%20photo(1).png?x=1'' None = ''my_photo_1_.png''"
    by code_simp
  have "\<forall>c \<in> set (get_safe_filename demo_lib ''http://example.com/dir/my%20photo(1).png?x=1'' None). c \<in> set safe_chars"
    using get_safe_filename_allowed [of demo_lib "''http://example.com/dir/my%20photo(1).png?x=1''" None]
    by blast
  then have "list_all (\<lambda>c. c \<in> set safe_chars) ''my_photo_1_.png''"
    unfolding e list_all_iff .
  with e show ?thesis by blast
qed

lemma sanitize_dots: "sanitize ''..'' = ''..''" "sanitize ''.'' = ''.''"
  by (simp_all add: sanitize_def safe_chars_def)

text \<open>
  Claim C1 (the code departs from it). The test of line 30 asks only for a dot in the
  name, and the dot is in the allow-list: a URL whose decoded last path segment is \<open>..\<close>
  gets no fallback name and gives the filename \<open>..\<close>, the parent of the directory it is
  joined to; one whose last segment is \<open>.\<close> gives \<open>.\<close>, the directory itself.
\<close>

theorem get_safe_filename_dot_names:
  "(url_basename L url = ''..'' \<longrightarrow> get_safe_filename L url content_type = ''..'')
   \<and> (url_basename L url = ''.'' \<longrightarrow> get_safe_filename L url content_type = ''.'')"
  by (simp add: get_safe_filename_def candidate_filename_def sanitize_dots)

text \<open>
  An example. In the pipeline the name \<open>..\<close> always exists, so collision resolution
  turns it into \<open>.._1\<close> before the file is written.
\<close>

theorem get_safe_filename_dot_names_witness:
  "url_basename demo_lib ''http://example.com/images/..'' = ''..''
   \<and> get_safe_filename demo_lib ''http://example.com/images/..'' (Some ''image/png'') = ''..''
   \<and> get_unique_filename demo_lib [''.'', ''..''] ''..'' = ''.._1''"
proof -
  have b: "url_basename demo_lib ''http://example.com/images/..'' = ''..''" by code_simp
  have u: "get_unique_filename demo_lib [''.'', ''..''] ''..'' = ''.._1''" by code_simp
  from get_safe_filename_dot_names [of demo_lib "''http://example.com/images/..''" "Some ''image/png''"] b
  have "get_safe_filename demo_lib ''http://example.com/images/..'' (Some ''image/png'') = ''..''"
    by blast
  with b u show ?thesis by blast
qed

lemma extension_is_table:
  "get_extension_from_content_type content_type
     = (case content_type of None \<Rightarrow> ''.jpg'' | Some ct \<Rightarrow> table_extension (lower ct))"
  by (simp add: get_extension_from_content_type_def extensions_def table_extension_def lower_def
           split: option.split)

lemma table_extension_cases:
  "table_extension ct \<in> {''.jpg'', ''.png'', ''.gif'', ''.webp'', ''.bmp'', ''.svg''}"
  by (simp add: table_extension_def)

lemma sanitize_append: "sanitize (xs @ ys) = sanitize xs @ sanitize ys"
  by (simp add: sanitize_def)

lemma sanitize_downloaded_image: "sanitize ''downloaded_image'' = ''downloaded_image''"
  by (simp add: sanitize_def safe_chars_def)

lemma sanitize_table_extension: "sanitize (table_extension ct) = table_extension ct"
  using table_extension_cases [of ct] by (auto simp: sanitize_def safe_chars_def)

lemma sanitize_jpg: "sanitize ''.jpg'' = ''.jpg''"
  by (simp add: sanitize_def safe_chars_def)

text \<open>
  Claim C9, as amended. When the decoded last path segment of the URL is empty or has no
  dot, the filename is \<open>downloaded_image\<close> followed by the extension that the table
  gives for the content type in lower case, and \<open>downloaded_image.jpg\<close> when the content
  type is absent or, in lower case, not in the table.
\<close>

theorem fallback_filename:
  assumes "url_basename L url = [] \<or> CHR ''.'' \<notin> set (url_basename L url)"
  shows "get_safe_filename L url content_type
           = ''downloaded_image'' @
               (case content_type of None \<Rightarrow> ''.jpg'' | Some ct \<Rightarrow> table_extension (lower ct))"
proof -
  have "candidate_filename L url content_type
          = ''downloaded_image'' @ get_extension_from_content_type content_type"
    using assms by (auto simp: candidate_filename_def Let_def)
  then have "get_safe_filename L url content_type
          = sanitize ''downloaded_image'' @ sanitize (get_extension_from_content_type content_type)"
    by (simp only: get_safe_filename_def sanitize_append)
  then show ?thesis
    by (cases content_type)
       (simp_all only: extension_is_table option.case sanitize_downloaded_image
                       sanitize_table_extension sanitize_jpg)
qed

text \<open>Examples: an empty last segment, and a last segment without a dot.\<close>

theorem fallback_filename_witness:
  "url_basename demo_lib ''http://example.com/gallery/'' = []
   \<and> get_safe_filename demo_lib ''http://example.com/gallery/'' (Some ''Image/PNG'') = ''downloaded_image.png''
   \<and> CHR ''.'' \<notin> set (url_basename demo_lib ''http://example.com/view'')
   \<and> get_safe_filename demo_lib ''http://example.com/view'' (Some ''image/svg+xml'') = ''downloaded_image.svg''
   \<and> get_safe_filename demo_lib ''http://example.com/view'' (Some ''image/tiff'') = ''downloaded_image.jpg''
   \<and> get_safe_filename demo_lib ''http://example.com/view'' None = ''downloaded_image.jpg''"
proof -
  have a: "url_basename demo_lib ''http://example.com/gallery/'' = []"
    by code_simp
  have b: "CHR ''.'' \<notin> set (url_basename demo_lib ''http://example.com/view'')"
    by code_simp
  have l: "lower ''Image/PNG'' = ''image/png''" by code_simp
  have t1: "table_extension ''image/png'' = ''.png''" by (simp add: table_extension_def)
  have t2: "table_extension (lower ''image/svg+xml'') = ''.svg''" by code_simp
  have t3: "table_extension (lower ''image/tiff'') = ''.jpg''" by code_simp
  show ?thesis
    using a b
      fallback_filename [of demo_lib "''http://example.com/gallery/''" "Some ''Image/PNG''"]
      fallback_filename [of demo_lib "''http://example.com/view''" "Some ''image/svg+xml''"]
      fallback_filename [of demo_lib "''http://example.com/view''" "Some ''image/tiff''"]
      fallback_filename [of demo_lib "''http://example.com/view''" None]
    by (simp add: l t1 t2 t3)
qed

text \<open>
  Claim C9 as stated fails: \<open>IMAGE/PNG\<close> is not a key of the table, and the filename
  still ends in \<open>.png\<close>, not in \<open>.jpg\<close>, because line 55 lowers the content type
  before the lookup.
\<close>

theorem fallback_filename_case_counterexample:
  "map_of extensions ''IMAGE/PNG'' = None
   \<and> url_basename demo_lib ''http://example.com/view'' = ''view''
   \<and> get_safe_filename demo_lib ''http://example.com/view'' (Some ''IMAGE/PNG'')
        = ''downloaded_image.png''"
proof -
  have a: "map_of extensions ''IMAGE/PNG'' = None" by (simp add: extensions_def)
  have b: "url_basename demo_lib ''http://example.com/view'' = ''view''" by code_simp
  have c: "get_safe_filename demo_lib ''http://example.com/view'' (Some ''IMAGE/PNG'')
        = ''downloaded_image.png''" by code_simp
  from a b c show ?thesis by blast
qed

subsection \<open>Response validation\<close>

lemma lower_image_prefix: "map lower_char ''image/'' = ''image/''"
  by code_simp

lemma startswith_lower_image:
  "startswith (lower s) ''image/'' = starts_with_ignoring_case s ''image/''"
  by (simp only: startswith_def starts_with_ignoring_case_def lower_def take_map lower_image_prefix)

lemma validate_image_response_unfold:
  "validate_image_response L r =
     (if \<not> starts_with_ignoring_case (content_type_of r) ''image/''
      then Inl (InvalidContentType (lower (content_type_of r)))
      else (case content_length_header r of
              None \<Rightarrow> Inr (lower (content_type_of r))
            | Some content_length \<Rightarrow>
                if content_length = [] then Inr (lower (content_type_of r))
                else (case int_of_str L content_length of
                        None \<Rightarrow> Inl (IntLiteralError content_length)
                      | Some n \<Rightarrow>
                          if n > max_file_size then
                            (if true_div_overflows L n then Inl OverflowError
                             else Inl (PayloadTooLarge n))
                          else Inr (lower (content_type_of r)))))"
  unfolding validate_image_response_def Let_def content_type_of_def [symmetric]
    startswith_lower_image ..

text \<open>
  Claim C5, as amended. Validation fails with \<open>InvalidContentType\<close> exactly when the
  content type does not start with \<open>image/\<close>, compared without regard to case. Unless
  the declared length is too large for the division of line 110, it fails with
  \<open>PayloadTooLarge\<close> exactly when the content type does start with \<open>image/\<close> and a
  non-empty content length is present whose integer value exceeds 50 MiB: the content type
  is checked first. It succeeds exactly when the content type starts with \<open>image/\<close> and
  the content length is absent, empty or an integer of at most 50 MiB, and then returns the
  content type in lower case.
\<close>

theorem validate_image_response_cases:
  "((\<exists>t. validate_image_response L r = Inl (InvalidContentType t))
      \<longleftrightarrow> \<not> starts_with_ignoring_case (content_type_of r) ''image/'')
   \<and> (\<not> size_overflows L r \<longrightarrow>
        ((\<exists>n. validate_image_response L r = Inl (PayloadTooLarge n))
           \<longleftrightarrow> starts_with_ignoring_case (content_type_of r) ''image/''
               \<and> (\<exists>cl n. content_length_header r = Some cl \<and> cl \<noteq> []
                     \<and> int_of_str L cl = Some n \<and> max_file_size < n)))
   \<and> ((\<exists>t. validate_image_response L r = Inr t)
      \<longleftrightarrow> starts_with_ignoring_case (content_type_of r) ''image/''
          \<and> (content_length_header r = None \<or> content_length_header r = Some []
              \<or> (\<exists>cl n. content_length_header r = Some cl
                    \<and> int_of_str L cl = Some n \<and> n \<le> max_file_size)))
   \<and> (\<forall>t. validate_image_response L r = Inr t \<longrightarrow> t = lower (content_type_of r))"
proof (cases "starts_with_ignoring_case (content_type_of r) ''image/''")
  case False
  then show ?thesis by (simp add: validate_image_response_unfold)
next
  case True
  show ?thesis
  proof (cases "content_length_header r")
    case None
    with True show ?thesis by (simp add: validate_image_response_unfold)
  next
    case (Some cl)
    show ?thesis
    proof (cases "cl = []")
      case True
      with \<open>starts_with_ignoring_case (content_type_of r) ''image/''\<close> Some show ?thesis
        by (simp add: validate_image_response_unfold)
    next
      case False
      with True Some show ?thesis
        by (cases "int_of_str L cl")
           (auto simp: validate_image_response_unfold size_overflows_def)
    qed
  qed
qed

text \<open>
  Examples: a PNG response of 1024 declared bytes is accepted, and one of 60000000
  declared bytes is rejected for its size.
\<close>

theorem validate_image_response_cases_witness:
  "validate_image_response demo_lib
      \<lparr>http_error = None, content_type_header = Some ''Image/PNG'',
       content_length_header = Some ''1024'', body = Inr []\<rparr> = Inr ''image/png''
   \<and> lower ''Image/PNG'' = ''image/png''
   \<and> starts_with_ignoring_case ''Image/PNG'' ''image/''
   \<and> \<not> size_overflows demo_lib
        \<lparr>http_error = None, content_type_header = Some ''Image/PNG'',
         content_length_header = Some ''60000000'', body = Inr []\<rparr>
   \<and> validate_image_response demo_lib
        \<lparr>http_error = None, content_type_header = Some ''Image/PNG'',
         content_length_header = Some ''60000000'', body = Inr []\<rparr>
      = Inl (PayloadTooLarge 60000000)"
proof -
  let ?r = "\<lparr>http_error = None, content_type_header = Some ''Image/PNG'',
       content_length_header = Some ''1024'', body = Inr []\<rparr>"
  let ?q = "\<lparr>http_error = None, content_type_header = Some ''Image/PNG'',
         content_length_header = Some ''60000000'', body = Inr []\<rparr>"
  have e: "validate_image_response demo_lib ?r = Inr ''image/png''"
    by code_simp
  have c: "content_type_of ?r = ''Image/PNG''"
    by (simp add: content_type_of_def)
  from validate_image_response_cases [of demo_lib ?r] e
  have a: "''image/png'' = lower (content_type_of ?r)
        \<and> starts_with_ignoring_case (content_type_of ?r) ''image/''"
    by blast
  have o: "\<not> size_overflows demo_lib ?q"
    by code_simp
  have i: "int_of_str demo_lib ''60000000'' = Some 60000000" by code_simp
  have m: "max_file_size < 60000000" by (simp add: max_file_size_def)
  have cq: "content_type_of ?q = ''Image/PNG''"
    by (simp add: content_type_of_def)
  have "\<exists>cl n. content_length_header ?q = Some cl \<and> cl \<noteq> []
          \<and> int_of_str demo_lib cl = Some n \<and> max_file_size < n"
    using i m by simp
  with validate_image_response_cases [of demo_lib ?q] o a c cq
  obtain n where n: "validate_image_response demo_lib ?q = Inl (PayloadTooLarge n)"
    by auto
  have k: "validate_image_response demo_lib ?q = Inl (PayloadTooLarge 60000000)"
    by code_simp
  from n k have "n = 60000000" by simp
  with n e c a o show ?thesis by simp
qed

text \<open>
  Claim C5 as stated fails: a response that declares \<open>text/html\<close> and a content length
  of 60000000, above the limit, is rejected for its content type and not for its size.
\<close>

theorem validate_payload_too_large_counterexample:
  "content_length_header
      \<lparr>http_error = None, content_type_header = Some ''text/html'',
       content_length_header = Some ''60000000'', body = Inr []\<rparr> = Some ''60000000''
   \<and> int_of_str demo_lib ''60000000'' = Some 60000000
   \<and> max_file_size < 60000000
   \<and> validate_image_response demo_lib
        \<lparr>http_error = None, content_type_header = Some ''text/html'',
         content_length_header = Some ''60000000'', body = Inr []\<rparr>
      = Inl (InvalidContentType ''text/html'')"
proof -
  have a: "int_of_str demo_lib ''60000000'' = Some 60000000" by code_simp
  have b: "max_file_size < 60000000" by (simp add: max_file_size_def)
  have c: "validate_image_response demo_lib
        \<lparr>http_error = None, content_type_header = Some ''text/html'',
         content_length_header = Some ''60000000'', body = Inr []\<rparr>
      = Inl (InvalidContentType ''text/html'')" by code_simp
  from a b c show ?thesis by simp
qed

text \<open>
  A content length that is not an integer literal makes \<open>int()\<close> raise; one whose size in
  MiB is too large for a float makes line 110 raise \<open>OverflowError\<close> before line 111 is
  reached; one that exceeds the limit under an image content type is otherwise rejected
  for its size.
\<close>

lemma validate_non_integer_length:
  "validate_image_response demo_lib
        \<lparr>http_error = None, content_type_header = Some ''image/png'',
         content_length_header = Some ''abc'', body = Inr []\<rparr>
      = Inl (IntLiteralError ''abc'')"
  by code_simp


lemma validate_overflow:
  "int_of_str L cl = Some n \<Longrightarrow> max_file_size < n \<Longrightarrow> true_div_overflows L n \<Longrightarrow> cl \<noteq> [] \<Longrightarrow>
   validate_image_response L
       \<lparr>http_error = None, content_type_header = Some ''image/png'',
        content_length_header = Some cl, body = b\<rparr> = Inl OverflowError"
proof -
  have a: "starts_with_ignoring_case ''image/png'' ''image/''" by code_simp
  assume "int_of_str L cl = Some n" "max_file_size < n" "true_div_overflows L n" "cl \<noteq> []"
  then show ?thesis
    by (simp add: validate_image_response_unfold content_type_of_def a)
qed

lemma validate_overflow_example:
  "validate_image_response demo_lib
       \<lparr>http_error = None, content_type_header = Some ''image/png'',
        content_length_header = Some (CHR ''1'' # replicate 320 CHR ''0''), body = Inr []\<rparr>
     = Inl OverflowError"
  by code_simp

lemma validate_too_large:
  "validate_image_response demo_lib
        \<lparr>http_error = None, content_type_header = Some ''image/png'',
         content_length_header = Some ''60000000'', body = Inr []\<rparr>
      = Inl (PayloadTooLarge 60000000)"
  by code_simp

subsection \<open>Collision resolution\<close>

text \<open>
  From any counter, the loop returns the first probe name that is not among the existing
  names, having found every earlier one in use.
\<close>

lemma probe_first_unused:
  "\<exists>k. counter \<le> k
     \<and> probe names stem suffix counter = probe_name stem suffix k
     \<and> probe_name stem suffix k \<notin> set names
     \<and> (\<forall>j. counter \<le> j \<and> j < k \<longrightarrow> probe_name stem suffix j \<in> set names)"
proof (induction names stem suffix counter rule: probe.induct)
  case (1 names stem suffix counter)
  show ?case
  proof (cases "probe_name stem suffix counter \<in> set names")
    case False
    then have "probe names stem suffix counter = probe_name stem suffix counter"
      by (subst probe.simps) simp
    with False show ?thesis by (intro exI [of _ counter]) auto
  next
    case True
    then have step: "probe names stem suffix counter = probe names stem suffix (counter + 1)"
      by (subst probe.simps) simp
    from 1 [OF refl] True obtain k where k: "counter + 1 \<le> k"
        "probe names stem suffix (counter + 1) = probe_name stem suffix k"
        "probe_name stem suffix k \<notin> set names"
        "\<forall>j. counter + 1 \<le> j \<and> j < k \<longrightarrow> probe_name stem suffix j \<in> set names"
      by auto
    have "probe_name stem suffix j \<in> set names" if "counter \<le> j" "j < k" for j
    proof (cases "j = counter")
      case True
      with \<open>probe_name stem suffix counter \<in> set names\<close> show ?thesis by simp
    next
      case False
      with that k(4) show ?thesis by simp
    qed
    with k step show ?thesis by (intro exI [of _ k]) auto
  qed
qed

text \<open>Distinct counters give distinct names, so a run of used probes is no longer than the listing.\<close>

lemma used_probes_bounded:
  assumes "\<forall>j. counter \<le> j \<and> j < k \<longrightarrow> probe_name stem suffix j \<in> set names"
  shows "k \<le> counter + length names"
proof -
  have "inj_on (probe_name stem suffix) {counter..<k}"
    by (rule inj_onI) (rule probe_name_inj)
  moreover have "probe_name stem suffix ` {counter..<k} \<subseteq> set names"
    using assms by auto
  ultimately have "card {counter..<k} \<le> card (set names)"
    by (metis card_image card_mono List.finite_set)
  also have "\<dots> \<le> length names" by (rule card_length)
  finally show ?thesis by simp
qed



text \<open>
  Claim C7. The probe loop terminates for every stem, suffix, starting counter and finite
  listing: \<open>probe\<close> is a total function (its termination is proved above from the
  finiteness of the listing), some probed name is unused, and the loop returns it after at
  most as many further probes as the listing has names.
\<close>

theorem probe_loop_terminates:
  "\<exists>k. counter \<le> k \<and> k \<le> counter + length names
     \<and> stem @ ''_'' @ str_nat k @ suffix \<notin> set names
     \<and> probe names stem suffix counter = stem @ ''_'' @ str_nat k @ suffix"
proof -
  from probe_first_unused [of counter names stem suffix]
  obtain k where k: "counter \<le> k"
      "probe names stem suffix counter = probe_name stem suffix k"
      "probe_name stem suffix k \<notin> set names"
      "\<forall>j. counter \<le> j \<and> j < k \<longrightarrow> probe_name stem suffix j \<in> set names"
    by blast
  from used_probes_bounded [OF k(4)] have "k \<le> counter + length names" .
  with k show ?thesis unfolding probe_name_def by (intro exI [of _ k]) simp
qed

subsection \<open>The per-URL pipeline and the index\<close>

lemma try_fetch_not_downloaded:
  "downloaded L E url st = None \<Longrightarrow> \<exists>e. try_fetch L E url st = (Inl e, connected url st)"
  by (auto simp: downloaded_def try_fetch_def connected_def Let_def
           split: sum.splits option.splits prod.splits)

lemma try_fetch_downloaded:
  "downloaded L E url st = Some (filename, content) \<Longrightarrow>
   try_fetch L E url st =
     (case is_duplicate_content L content filename (connected url st) of
        (True, st2) \<Rightarrow> (Inr False, st2)
      | (False, st2) \<Rightarrow> save_file L E filename content st2)"
  by (auto simp: downloaded_def try_fetch_def connected_def Let_def
           split: sum.splits option.splits prod.splits)

lemma is_duplicate_content_known:
  "downloaded_hashes st (calculate_file_hash L content) = Some f \<Longrightarrow>
   is_duplicate_content L content filename st = (True, st\<lparr>console := console st @ [IdenticalTo f]\<rparr>)"
  by (simp add: is_duplicate_content_def)

lemma is_duplicate_content_new:
  "downloaded_hashes st (calculate_file_hash L content) = None \<Longrightarrow>
   is_duplicate_content L content filename st
     = (False, st\<lparr>downloaded_hashes := (downloaded_hashes st)(calculate_file_hash L content \<mapsto> filename)\<rparr>)"
  by (simp add: is_duplicate_content_def)

lemma is_duplicate_content_keeps:
  "downloaded_hashes st h = Some f \<Longrightarrow>
   downloaded_hashes (snd (is_duplicate_content L content filename st)) h = Some f"
  by (auto simp: is_duplicate_content_def Let_def split: option.splits)

lemma save_file_index:
  "downloaded_hashes (snd (save_file L E filename content st)) = downloaded_hashes st"
  by (simp add: save_file_def Let_def split: write_outcome.splits)

lemma connected_fields [simp]:
  "downloaded_hashes (connected url st) = downloaded_hashes st"
  "existing (connected url st) = existing st"
  "written (connected url st) = written st"
  "requests (connected url st) = requests st @ [url]"
  "console (connected url st) = console st @ [Connecting url]"
  by (simp_all add: connected_def)

text \<open>What one fetch does to the index.\<close>

lemma fetch_single_image_index:
  "downloaded_hashes (snd (fetch_single_image L E url st)) =
     (case downloaded L E url st of
        None \<Rightarrow> downloaded_hashes st
      | Some (filename, content) \<Rightarrow>
          (case downloaded_hashes st (calculate_file_hash L content) of
             Some f \<Rightarrow> downloaded_hashes st
           | None \<Rightarrow> (downloaded_hashes st)(calculate_file_hash L content \<mapsto> filename)))"
proof (cases "downloaded L E url st")
  case None
  from try_fetch_not_downloaded [OF None] obtain e
    where "try_fetch L E url st = (Inl e, connected url st)" ..
  with None show ?thesis by (simp add: fetch_single_image_def)
next
  case (Some p)
  obtain filename content where p: "p = (filename, content)" by (cases p)
  note tf = try_fetch_downloaded [OF Some [unfolded p]]
  show ?thesis
  proof (cases "downloaded_hashes st (calculate_file_hash L content)")
    case None
    then have "is_duplicate_content L content filename (connected url st)
       = (False, (connected url st)\<lparr>downloaded_hashes := (downloaded_hashes st)(calculate_file_hash L content \<mapsto> filename)\<rparr>)"
      using is_duplicate_content_new [of "connected url st" L content filename] by simp
    with tf have "try_fetch L E url st = save_file L E filename content
        ((connected url st)\<lparr>downloaded_hashes := (downloaded_hashes st)(calculate_file_hash L content \<mapsto> filename)\<rparr>)"
      by simp
    then have "downloaded_hashes (snd (try_fetch L E url st))
        = (downloaded_hashes st)(calculate_file_hash L content \<mapsto> filename)"
      by (simp add: save_file_index)
    moreover have "downloaded_hashes (snd (fetch_single_image L E url st))
        = downloaded_hashes (snd (try_fetch L E url st))"
      by (simp add: fetch_single_image_def split: prod.splits sum.splits)
    ultimately show ?thesis using Some p None by simp
  next
    case (Some f)
    then have "is_duplicate_content L content filename (connected url st)
       = (True, (connected url st)\<lparr>console := console (connected url st) @ [IdenticalTo f]\<rparr>)"
      using is_duplicate_content_known [of "connected url st" L content f filename] by simp
    with tf have "try_fetch L E url st
       = (Inr False, (connected url st)\<lparr>console := console (connected url st) @ [IdenticalTo f]\<rparr>)"
      by simp
    then show ?thesis using \<open>downloaded L E url st = Some p\<close> p Some
      by (simp add: fetch_single_image_def)
  qed
qed

text \<open>An entry of the index is never changed or removed: by one fetch, by the whole loop.\<close>

lemma fetch_single_image_keeps:
  "downloaded_hashes st h = Some f \<Longrightarrow>
   downloaded_hashes (snd (fetch_single_image L E url st)) h = Some f"
  by (auto simp: fetch_single_image_index split: option.splits)

lemma fetch_loop_keeps:
  "downloaded_hashes st h = Some f \<Longrightarrow>
   downloaded_hashes (snd (fetch_loop L E us n st)) h = Some f"
proof (induction us arbitrary: n st)
  case Nil
  then show ?case by simp
next
  case (Cons u us)
  show ?case
  proof (cases "strip u = []")
    case True
    with Cons show ?thesis by simp
  next
    case False
    obtain b st' where r: "fetch_single_image L E (strip u) st = (b, st')"
      by (cases "fetch_single_image L E (strip u) st")
    from fetch_single_image_keeps [OF Cons.prems, of L E "strip u"] r
    have "downloaded_hashes st' h = Some f" by simp
    from Cons.IH [OF this] False r show ?thesis
      by (cases b) (simp_all add: Let_def)
  qed
qed

lemma fetch_single_image_duplicate:
  assumes "downloaded L E url st = Some (filename, content)"
    and "downloaded_hashes st (calculate_file_hash L content) = Some f"
  shows "fetch_single_image L E url st
           = (False, (connected url st)\<lparr>console := console st @ [Connecting url, IdenticalTo f]\<rparr>)"
proof -
  have "is_duplicate_content L content filename (connected url st)
       = (True, (connected url st)\<lparr>console := console (connected url st) @ [IdenticalTo f]\<rparr>)"
    using is_duplicate_content_known [of "connected url st" L content f filename] assms(2) by simp
  with try_fetch_downloaded [OF assms(1)] show ?thesis
    by (simp add: fetch_single_image_def)
qed

lemma get_unique_filename_fresh: "get_unique_filename L names filename \<notin> set names"
proof (cases "filename \<in> set names")
  case False
  then show ?thesis by (simp add: get_unique_filename_def)
next
  case True
  from probe_first_unused [of 1 names "path_stem L filename" "path_suffix L filename"]
  have "probe names (path_stem L filename) (path_suffix L filename) 1 \<notin> set names"
    by auto
  with True show ?thesis by (simp add: get_unique_filename_def)
qed

lemma fetch_single_image_success:
  assumes "fetch_single_image L E url st = (True, st')"
  shows "\<exists>filename content.
           downloaded L E url st = Some (filename, content)
         \<and> downloaded_hashes st (calculate_file_hash L content) = None
         \<and> disk_write E (get_unique_filename L (existing st) filename) content = Written
         \<and> downloaded_hashes st' = (downloaded_hashes st)(calculate_file_hash L content \<mapsto> filename)
         \<and> written st' = (get_unique_filename L (existing st) filename, content) # written st
         \<and> existing st' = get_unique_filename L (existing st) filename # existing st"
proof (cases "downloaded L E url st")
  case None
  from try_fetch_not_downloaded [OF None] obtain e
    where "try_fetch L E url st = (Inl e, connected url st)" ..
  with assms show ?thesis by (simp add: fetch_single_image_def)
next
  case (Some p)
  obtain filename content where p: "p = (filename, content)" by (cases p)
  note tf = try_fetch_downloaded [OF Some [unfolded p]]
  show ?thesis
  proof (cases "downloaded_hashes st (calculate_file_hash L content)")
    case (Some f)
    from fetch_single_image_duplicate [OF \<open>downloaded L E url st = Some p\<close> [unfolded p] Some] assms
    show ?thesis by simp
  next
    case None
    let ?st2 = "(connected url st)\<lparr>downloaded_hashes := (downloaded_hashes st)(calculate_file_hash L content \<mapsto> filename)\<rparr>"
    have "is_duplicate_content L content filename (connected url st) = (False, ?st2)"
      using is_duplicate_content_new [of "connected url st" L content filename] None by simp
    with tf have t: "try_fetch L E url st = save_file L E filename content ?st2"
      by simp
    have s: "save_file L E filename content ?st2 = (Inr True, st')"
      using assms t
      by (cases "save_file L E filename content ?st2" rule: prod.exhaust [case_names Pair];
          cases "fst (save_file L E filename content ?st2)")
         (auto simp: fetch_single_image_def)
    then have "disk_write E (get_unique_filename L (existing st) filename) content = Written
        \<and> downloaded_hashes st' = (downloaded_hashes st)(calculate_file_hash L content \<mapsto> filename)
        \<and> written st' = (get_unique_filename L (existing st) filename, content) # written st
        \<and> existing st' = get_unique_filename L (existing st) filename # existing st"
      by (auto simp: save_file_def Let_def split: write_outcome.splits)
    with \<open>downloaded L E url st = Some p\<close> p None show ?thesis by blast
  qed
qed

text \<open>
  Claim C2. Take two fetches of one run that both download their payload in full, with
  identical bytes, and any fetches of the loop between them. The second returns false, prints
  that its content is identical to the filename the index holds for the digest since the
  first (the first's own filename when the digest was new), and writes no file. The index
  maps a digest to one filename, and no fetch changes or removes an entry: the first
  filename recorded for a digest stays.
\<close>

theorem identical_payload_is_duplicate:
  assumes "downloaded L E url1 st = Some (filename1, content)"
    and "fetch_single_image L E url1 st = (b1, st1)"
    and "fetch_loop L E us n st1 = (n', st2)"
    and "downloaded L E url2 st2 = Some (filename2, content)"
    and "fetch_single_image L E url2 st2 = (b2, st3)"
  shows "\<exists>f. f = (case downloaded_hashes st (calculate_file_hash L content) of
                    None \<Rightarrow> filename1 | Some g \<Rightarrow> g)
           \<and> downloaded_hashes st1 (calculate_file_hash L content) = Some f
           \<and> downloaded_hashes st2 (calculate_file_hash L content) = Some f
           \<and> downloaded_hashes st3 = downloaded_hashes st2
           \<and> \<not> b2
           \<and> console st3 = console st2 @ [Connecting url2, IdenticalTo f]
           \<and> existing st3 = existing st2
           \<and> written st3 = written st2
           \<and> (\<forall>h g. downloaded_hashes st h = Some g \<longrightarrow> downloaded_hashes st3 h = Some g)"
proof -
  let ?h = "calculate_file_hash L content"
  let ?f = "case downloaded_hashes st ?h of None \<Rightarrow> filename1 | Some g \<Rightarrow> g"
  have st1: "st1 = snd (fetch_single_image L E url1 st)" using assms(2) by simp
  have st2: "st2 = snd (fetch_loop L E us n st1)" using assms(3) by simp
  have st3: "st3 = snd (fetch_single_image L E url2 st2)" using assms(5) by simp
  have i1: "downloaded_hashes st1 ?h = Some ?f"
    unfolding st1 fetch_single_image_index using assms(1)
    by (simp split: option.splits)
  have i2: "downloaded_hashes st2 ?h = Some ?f"
    unfolding st2 by (rule fetch_loop_keeps [OF i1])
  from fetch_single_image_duplicate [OF assms(4) i2] assms(5)
  have r: "b2 = False"
      "st3 = (connected url2 st2)\<lparr>console := console st2 @ [Connecting url2, IdenticalTo ?f]\<rparr>"
    by simp_all
  have keep: "downloaded_hashes st3 h = Some g" if "downloaded_hashes st h = Some g" for h g
  proof -
    from that have "downloaded_hashes st1 h = Some g"
      unfolding st1 by (rule fetch_single_image_keeps)
    then have "downloaded_hashes st2 h = Some g"
      unfolding st2 by (rule fetch_loop_keeps)
    then show ?thesis unfolding st3 by (rule fetch_single_image_keeps)
  qed
  have "downloaded_hashes st3 = downloaded_hashes st2" "console st3 = console st2 @ [Connecting url2, IdenticalTo ?f]"
    "existing st3 = existing st2" "written st3 = written st2"
    by (simp_all add: r(2))
  with i1 i2 r(1) keep show ?thesis by blast
qed

text \<open>An example: two URLs with the same three bytes; the second is a duplicate of \<open>a.png\<close>.\<close>

theorem identical_payload_is_duplicate_witness:
  "downloaded demo_lib demo_env ''http://x/a.png'' (init []) = Some (''a.png'', [1, 2, 3])
   \<and> downloaded demo_lib demo_env ''http://y/b.png'' after_first = Some (''b.png'', [1, 2, 3])
   \<and> fst (fetch_single_image demo_lib demo_env ''http://y/b.png'' after_first) = False
   \<and> console (snd (fetch_single_image demo_lib demo_env ''http://y/b.png'' after_first))
        = [Connecting ''http://x/a.png'', Fetched ''a.png'' ''a.png'',
           Connecting ''http://y/b.png'', IdenticalTo ''a.png'']
   \<and> written (snd (fetch_single_image demo_lib demo_env ''http://y/b.png'' after_first))
        = [(''a.png'', [1, 2, 3])]"
proof -
  let ?u1 = "''http://x/a.png''" and ?u2 = "''http://y/b.png''"
  have d1: "downloaded demo_lib demo_env ?u1 (init []) = Some (''a.png'', [1, 2, 3])"
    by code_simp
  have d2: "downloaded demo_lib demo_env ?u2 after_first = Some (''b.png'', [1, 2, 3])"
    by code_simp
  have i0: "downloaded_hashes (init []) (calculate_file_hash demo_lib [1, 2, 3]) = None"
    by (simp add: init_def)
  have c1: "console after_first = [Connecting ''http://x/a.png'', Fetched ''a.png'' ''a.png'']"
    by code_simp
  have w1: "written after_first = [(''a.png'', [1, 2, 3])]"
    by code_simp
  have f1: "fetch_single_image demo_lib demo_env ?u1 (init [])
              = (fst (fetch_single_image demo_lib demo_env ?u1 (init [])), after_first)"
    by (simp add: after_first_def)
  have l: "fetch_loop demo_lib demo_env [] 0 after_first = (0, after_first)"
    by simp
  have f2: "fetch_single_image demo_lib demo_env ?u2 after_first
              = (fst (fetch_single_image demo_lib demo_env ?u2 after_first),
                 snd (fetch_single_image demo_lib demo_env ?u2 after_first))"
    by simp
  from identical_payload_is_duplicate [OF d1 f1 l d2 f2] i0
  have "fst (fetch_single_image demo_lib demo_env ?u2 after_first) = False"
    and "console (snd (fetch_single_image demo_lib demo_env ?u2 after_first))
           = console after_first @ [Connecting ?u2, IdenticalTo ''a.png'']"
    and "written (snd (fetch_single_image demo_lib demo_env ?u2 after_first)) = written after_first"
    by auto
  with d1 d2 c1 w1 show ?thesis by simp
qed

text \<open>
  Claim C10. After a successful fetch the index maps the payload's digest to the sanitized
  filename of line 130, computed before collision resolution, while the file is written
  under the name collision resolution returns. When the sanitized name already exists the
  two differ, and every later fetch of the same payload is reported as identical to the
  sanitized name, not to the name written.
\<close>

theorem index_names_candidate:
  assumes "fetch_single_image L E url st = (True, st')"
  shows "\<exists>filename content.
           downloaded L E url st = Some (filename, content)
         \<and> downloaded_hashes st' (calculate_file_hash L content) = Some filename
         \<and> written st' = (get_unique_filename L (existing st) filename, content) # written st
         \<and> (filename \<in> set (existing st) \<longrightarrow> get_unique_filename L (existing st) filename \<noteq> filename)
         \<and> (\<forall>E' url' filename'.
               downloaded L E' url' st' = Some (filename', content) \<longrightarrow>
               fst (fetch_single_image L E' url' st') = False
               \<and> console (snd (fetch_single_image L E' url' st'))
                   = console st' @ [Connecting url', IdenticalTo filename])"
proof -
  from fetch_single_image_success [OF assms] obtain filename content where
    d: "downloaded L E url st = Some (filename, content)"
    and i: "downloaded_hashes st' = (downloaded_hashes st)(calculate_file_hash L content \<mapsto> filename)"
    and w: "written st' = (get_unique_filename L (existing st) filename, content) # written st"
    by blast
  have h: "downloaded_hashes st' (calculate_file_hash L content) = Some filename"
    by (simp add: i)
  have ren: "get_unique_filename L (existing st) filename \<noteq> filename" if "filename \<in> set (existing st)"
    using that get_unique_filename_fresh [of L "existing st" filename] by auto
  have later: "fst (fetch_single_image L E' url' st') = False
      \<and> console (snd (fetch_single_image L E' url' st')) = console st' @ [Connecting url', IdenticalTo filename]"
    if "downloaded L E' url' st' = Some (filename', content)" for E' url' filename'
    using fetch_single_image_duplicate [OF that h] by simp
  from d h w ren later show ?thesis by blast
qed

text \<open>
  An example: \<open>a.png\<close> exists already, so the payload is written as \<open>a_1.png\<close> while the
  index, and the later duplicate report, name \<open>a.png\<close>.
\<close>

theorem index_names_candidate_witness:
  "fetch_single_image demo_lib demo_env ''http://x/a.png'' (init [''a.png'']) = (True, after_renamed)
   \<and> written after_renamed = [(''a_1.png'', [1, 2, 3])]
   \<and> downloaded_hashes after_renamed (calculate_file_hash demo_lib [1, 2, 3]) = Some ''a.png''
   \<and> console (snd (fetch_single_image demo_lib demo_env ''http://y/b.png'' after_renamed))
        = console after_renamed @ [Connecting ''http://y/b.png'', IdenticalTo ''a.png'']"
proof -
  let ?u1 = "''http://x/a.png''" and ?u2 = "''http://y/b.png''"
  have t: "fst (fetch_single_image demo_lib demo_env ?u1 (init [''a.png''])) = True"
    by code_simp
  then have f: "fetch_single_image demo_lib demo_env ?u1 (init [''a.png'']) = (True, after_renamed)"
    by (simp add: after_renamed_def prod_eq_iff)
  have d1: "downloaded demo_lib demo_env ?u1 (init [''a.png'']) = Some (''a.png'', [1, 2, 3])"
    by code_simp
  have d2: "downloaded demo_lib demo_env ?u2 after_renamed = Some (''b.png'', [1, 2, 3])"
    by code_simp
  have u: "get_unique_filename demo_lib [''a.png''] ''a.png'' = ''a_1.png''"
    by code_simp
  have e: "existing (init [''a.png'']) = [''a.png'']" "written (init [''a.png'']) = []"
    by (simp_all add: init_def)
  from index_names_candidate [OF f] d1 d2
  have "downloaded_hashes after_renamed (calculate_file_hash demo_lib [1, 2, 3]) = Some ''a.png''"
    and "written after_renamed
           = (get_unique_filename demo_lib (existing (init [''a.png''])) ''a.png'', [1, 2, 3])
               # written (init [''a.png''])"
    and "console (snd (fetch_single_image demo_lib demo_env ?u2 after_renamed))
           = console after_renamed @ [Connecting ?u2, IdenticalTo ''a.png'']"
    by auto
  with f u e show ?thesis by simp
qed

subsection \<open>Failures and the batch\<close>

text \<open>Every fetch makes exactly one request, whatever its outcome; the loop makes one for each entry that is non-empty once stripped.\<close>

lemma fetch_single_image_requests:
  "requests (snd (fetch_single_image L E url st)) = requests st @ [url]"
proof (cases "downloaded L E url st")
  case None
  from try_fetch_not_downloaded [OF None] obtain e
    where "try_fetch L E url st = (Inl e, connected url st)" ..
  then show ?thesis by (simp add: fetch_single_image_def)
next
  case (Some p)
  obtain filename content where p: "p = (filename, content)" by (cases p)
  have sf: "requests (snd (save_file L E f c s)) = requests s" for f c s
    by (simp add: save_file_def Let_def split: write_outcome.splits)
  have dc: "requests (snd (is_duplicate_content L c f s)) = requests s" for f c s
    by (simp add: is_duplicate_content_def Let_def split: option.splits)
  have "requests (snd (try_fetch L E url st)) = requests st @ [url]"
    using try_fetch_downloaded [OF Some [unfolded p]]
      dc [of content filename "connected url st"]
    by (cases "is_duplicate_content L content filename (connected url st)")
       (auto simp: sf split: bool.splits)
  moreover have "requests (snd (fetch_single_image L E url st)) = requests (snd (try_fetch L E url st))"
    by (simp add: fetch_single_image_def split: prod.splits sum.splits)
  ultimately show ?thesis by simp
qed

lemma fetch_loop_requests:
  "requests (snd (fetch_loop L E us n st)) = requests st @ filter (\<lambda>u. u \<noteq> []) (map strip us)"
proof (induction us arbitrary: n st)
  case Nil
  show ?case by simp
next
  case (Cons u us)
  show ?case
  proof (cases "strip u = []")
    case True
    with Cons.IH [of n st] show ?thesis by simp
  next
    case False
    obtain b st' where r: "fetch_single_image L E (strip u) st = (b, st')"
      by (cases "fetch_single_image L E (strip u) st")
    from fetch_single_image_requests [of L E "strip u" st] r
    have q: "requests st' = requests st @ [strip u]" by simp
    from False r Cons.IH [of "n + 1" st'] Cons.IH [of n st'] q show ?thesis
      by (cases b) (simp_all add: Let_def)
  qed
qed

text \<open>
  With a console that accepts every message: whatever the \<open>try\<close> block raises (a
  timeout, a connection failure, an HTTP error status, a validation failure, any other
  exception), \<open>fetch_single_image\<close> returns false with the matching message printed, and
  the loop requests every entry that is non-empty once stripped, in order, whatever the
  outcome of the fetches before it.
\<close>

theorem failures_become_false:
  "(\<forall>e st'. try_fetch L E url st = (Inl e, st') \<longrightarrow>
       fetch_single_image L E url st = (False, st'\<lparr>console := console st' @ [handler_msg url e]\<rparr>))
   \<and> (\<forall>e. http_get E (length (requests st)) url = Inl e \<longrightarrow>
         fst (fetch_single_image L E url st) = False)
   \<and> (\<forall>r code reason. http_get E (length (requests st)) url = Inr r
         \<and> http_error r = Some (code, reason) \<longrightarrow>
         fst (fetch_single_image L E url st) = False)
   \<and> (\<forall>r e. http_get E (length (requests st)) url = Inr r \<and> http_error r = None
         \<and> validate_image_response L r = Inl e \<longrightarrow>
         fst (fetch_single_image L E url st) = False)
   \<and> requests (snd (fetch_single_image L E url st)) = requests st @ [url]
   \<and> requests (snd (fetch_loop L E us n st))
        = requests st @ filter (\<lambda>u. u \<noteq> []) (map strip us)"
proof -
  have a: "fetch_single_image L E url st = (False, st'\<lparr>console := console st' @ [handler_msg url e]\<rparr>)"
    if "try_fetch L E url st = (Inl e, st')" for e st'
    using that by (simp add: fetch_single_image_def)
  have b: "fst (fetch_single_image L E url st) = False"
    if "http_get E (length (requests st)) url = Inl e" for e
    using that by (simp add: fetch_single_image_def try_fetch_def Let_def)
  have c: "fst (fetch_single_image L E url st) = False"
    if "http_get E (length (requests st)) url = Inr r \<and> http_error r = Some (code, reason)"
    for r code reason
    using that by (simp add: fetch_single_image_def try_fetch_def Let_def)
  have d: "fst (fetch_single_image L E url st) = False"
    if "http_get E (length (requests st)) url = Inr r \<and> http_error r = None
         \<and> validate_image_response L r = Inl e" for r e
    using that by (simp add: fetch_single_image_def try_fetch_def Let_def)
  from a b c d fetch_single_image_requests [of L E url st] fetch_loop_requests [of L E us n st]
  show ?thesis by blast
qed

text \<open>An example: the first URL times out, and the second is still requested and saved.\<close>

theorem failures_become_false_witness:
  "http_get flaky_env (length (requests (init []))) ''http://x/a.png'' = Inl Timeout
   \<and> fst (fetch_single_image demo_lib flaky_env ''http://x/a.png'' (init [])) = False
   \<and> fst (fetch_single_image demo_lib flaky_env ''http://y/b.png'' after_timeout) = True
   \<and> requests (snd (fetch_loop demo_lib flaky_env [''http://x/a.png'', '' http://y/b.png''] 0 (init [])))
        = [''http://x/a.png'', ''http://y/b.png'']"
proof -
  have t: "http_get flaky_env (length (requests (init []))) ''http://x/a.png'' = Inl Timeout"
    by (simp add: flaky_env_def init_def)
  have i: "fst (fetch_single_image demo_lib flaky_env ''http://y/b.png'' after_timeout) = True"
    by code_simp
  have s: "filter (\<lambda>u. u \<noteq> []) (map strip [''http://x/a.png'', '' http://y/b.png''])
             = [''http://x/a.png'', ''http://y/b.png'']"
    by code_simp
  have r0: "requests (init []) = []" by (simp add: init_def)
  from failures_become_false [of demo_lib flaky_env "''http://x/a.png''" "init []"
      "[''http://x/a.png'', '' http://y/b.png'']" 0] t
  have "fst (fetch_single_image demo_lib flaky_env ''http://x/a.png'' (init [])) = False"
    and "requests (snd (fetch_loop demo_lib flaky_env [''http://x/a.png'', '' http://y/b.png''] 0 (init [])))
        = requests (init []) @ filter (\<lambda>u. u \<noteq> []) (map strip [''http://x/a.png'', '' http://y/b.png''])"
    by blast+
  with t i s r0 show ?thesis by simp
qed

text \<open>
  With a console that accepts every message, the methods with printing written out are the
  methods defined first.
\<close>

lemma print_line_accepting [simp]:
  "print_line (\<lambda>m. False) m st = Inr (st\<lparr>console := console st @ [m]\<rparr>)"
  by (simp add: print_line_def)

lemma is_duplicate_content_printing_accepting:
  "is_duplicate_content_printing (\<lambda>m. False) L content filename st
     = (Inr (fst (is_duplicate_content L content filename st)),
        snd (is_duplicate_content L content filename st))"
  by (simp add: is_duplicate_content_printing_def is_duplicate_content_def Let_def
           split: option.splits)

lemma save_file_printing_accepting:
  "save_file_printing (\<lambda>m. False) L E filename content st = save_file L E filename content st"
  by (simp add: save_file_printing_def save_file_def Let_def split: write_outcome.splits)

lemma try_fetch_printing_accepting:
  "try_fetch_printing (\<lambda>m. False) L E url st = try_fetch L E url st"
  by (simp add: try_fetch_printing_def try_fetch_def Let_def
        is_duplicate_content_printing_accepting save_file_printing_accepting
      split: sum.splits option.splits prod.splits bool.splits)

lemma fetch_single_image_printing_accepting:
  "fetch_single_image_printing (\<lambda>m. False) L E url st
     = (Inr (fst (fetch_single_image L E url st)), snd (fetch_single_image L E url st))"
  by (simp add: fetch_single_image_printing_def fetch_single_image_def
        try_fetch_printing_accepting split: prod.splits sum.splits)

lemma fetch_loop_printing_accepting:
  "fetch_loop_printing (\<lambda>m. False) L E us n st
     = (Inr (fst (fetch_loop L E us n st)), snd (fetch_loop L E us n st))"
proof (induction us arbitrary: n st)
  case Nil
  show ?case by simp
next
  case (Cons u us)
  show ?case
  proof (cases "strip u = []")
    case True
    with Cons.IH show ?thesis by simp
  next
    case False
    obtain b st' where r: "fetch_single_image L E (strip u) st = (b, st')"
      by (cases "fetch_single_image L E (strip u) st")
    with False Cons.IH [of "n + 1" st'] Cons.IH [of n st'] show ?thesis
      by (cases b) (simp_all add: fetch_single_image_printing_accepting Let_def)
  qed
qed

lemma fetch_images_printing_accepting:
  "fetch_images_printing (\<lambda>m. False) L E urls st
     = (Inr (fst (fetch_images L E urls st)), snd (fetch_images L E urls st))"
  by (simp add: fetch_images_printing_def fetch_images_def fetch_loop_printing_accepting
        Let_def split: prod.splits)

text \<open>
  A console that cannot encode the URL: line 120 raises inside the \<open>try\<close> block, the
  handler of line 166 is entered, and its own \<open>print\<close> at line 167 raises again.
\<close>

lemma fetch_single_image_printing_refused:
  "fetch_single_image_printing (shows_url url) L E url st = (Inl UnicodeEncodeError, st)"
  by (simp add: fetch_single_image_printing_def try_fetch_printing_def print_line_def)

text \<open>
  Claim C8 (the code departs from it). The handlers print outside the \<open>try\<close> block.
  For a URL that the console cannot encode, the \<open>UnicodeEncodeError\<close> of the handler's
  own \<open>print\<close> leaves \<open>fetch_single_image\<close>, and then the loop and
  \<open>fetch_images\<close>: no request is made for this URL or for any URL after it, and the
  state is unchanged.
\<close>

theorem print_failure_propagates:
  "fetch_single_image_printing (shows_url url) L E url st = (Inl UnicodeEncodeError, st)
   \<and> (strip u \<noteq> [] \<longrightarrow>
        fetch_loop_printing (shows_url (strip u)) L E (u # us) n st = (Inl UnicodeEncodeError, st)
        \<and> fetch_images_printing (shows_url (strip u)) L E (UrlList (u # us)) st
            = (Inl UnicodeEncodeError, st))"
proof -
  have a: "fetch_single_image_printing (shows_url url) L E url st = (Inl UnicodeEncodeError, st)"
    by (rule fetch_single_image_printing_refused)
  have b: "fetch_loop_printing (shows_url (strip u)) L E (u # us) n st = (Inl UnicodeEncodeError, st)"
    if "strip u \<noteq> []" for n
    using that by (simp add: fetch_single_image_printing_refused)
  have c: "fetch_images_printing (shows_url (strip u)) L E (UrlList (u # us)) st
            = (Inl UnicodeEncodeError, st)" if "strip u \<noteq> []"
    using b [OF that, of 0] by (simp add: fetch_images_printing_def)
  from a b c show ?thesis by blast
qed

text \<open>
  An example: the first URL has a character outside ASCII; the batch ends there, and the
  second URL, which a console that accepts every message would see requested, is not.
\<close>

theorem print_failure_propagates_witness:
  "strip unprintable_url = unprintable_url
   \<and> unprintable_url \<noteq> []
   \<and> fetch_loop_printing (shows_url unprintable_url) demo_lib demo_env
        [unprintable_url, ''http://y/b.png''] 0 (init [])
      = (Inl UnicodeEncodeError, init [])
   \<and> requests (init []) = []
   \<and> requests (snd (fetch_loop demo_lib demo_env [unprintable_url, ''http://y/b.png''] 0 (init [])))
      = [unprintable_url, ''http://y/b.png'']"
proof -
  have s: "strip unprintable_url = unprintable_url" by code_simp
  have n: "unprintable_url \<noteq> []" by (simp add: unprintable_url_def)
  have r: "requests (init []) = []" by (simp add: init_def)
  have t: "strip ''http://y/b.png'' = ''http://y/b.png''" by code_simp
  have q: "requests (snd (fetch_loop demo_lib demo_env [unprintable_url, ''http://y/b.png''] 0 (init [])))
      = [unprintable_url, ''http://y/b.png'']"
    unfolding fetch_loop_requests by (simp add: s t n r)
  from print_failure_propagates [of unprintable_url demo_lib demo_env "init []" unprintable_url
      "[''http://y/b.png'']" 0] s n
  have "fetch_loop_printing (shows_url unprintable_url) demo_lib demo_env
        [unprintable_url, ''http://y/b.png''] 0 (init [])
      = (Inl UnicodeEncodeError, init [])"
    by simp
  with s n r q show ?thesis by blast
qed

text \<open>The total is the number of entries, empty or not.\<close>

lemma fetch_images_total:
  "snd (fst (fetch_images L E (UrlList us) st)) = int (length us)"
  by (simp add: fetch_images_def Let_def split: prod.splits)

lemma fetch_images_requests:
  "requests (snd (fetch_images L E (UrlList us) st))
     = requests st @ filter (\<lambda>u. u \<noteq> []) (map strip us)"
  using fetch_loop_requests [of L E us 0 st]
  by (auto simp: fetch_images_def Let_def split: prod.splits)

text \<open>
  Claim C3 (the code departs from it). \<open>fetch_images\<close> takes the total at line 185,
  before the loop skips the empty entries, so the total counts them: the input \<open>""\<close>
  gives one entry and the result \<open>(0, 1)\<close>, with no request made; \<open>","\<close> gives
  \<open>(0, 2)\<close>; and a list of one URL and one empty entry gives a total of 2 with one
  request made.
\<close>

theorem fetch_images_counts_empty_entries:
  "fetch_images L E (UrlString '''') st = ((0, 1), st)
   \<and> fetch_images L E (UrlString '','') st = ((0, 2), st)
   \<and> fetch_images L E (UrlList [[], []]) st = ((0, 2), st)
   \<and> snd (fst (fetch_images L E (UrlList [''http://x/a.png'', []]) st)) = 2
   \<and> requests (snd (fetch_images L E (UrlList [''http://x/a.png'', []]) st))
        = requests st @ [''http://x/a.png'']"
proof -
  have s: "strip [] = []" by (simp add: strip_def)
  have u: "strip ''http://x/a.png'' = ''http://x/a.png''" by code_simp
  have a: "fetch_images L E (UrlString '''') st = ((0, 1), st)"
    by (simp add: fetch_images_def s)
  have b: "fetch_images L E (UrlString '','') st = ((0, 2), st)"
    by (simp add: fetch_images_def s)
  have c: "fetch_images L E (UrlList [[], []]) st = ((0, 2), st)"
    by (simp add: fetch_images_def s)
  have d: "snd (fst (fetch_images L E (UrlList [''http://x/a.png'', []]) st)) = 2"
    by (simp add: fetch_images_total)
  have e: "requests (snd (fetch_images L E (UrlList [''http://x/a.png'', []]) st))
        = requests st @ [''http://x/a.png'']"
    by (simp add: fetch_images_requests s u)
  from a b c d e show ?thesis by blast
qed

lemma validate_png_response: "validate_image_response L (png_response content) = Inr ''image/png''"
proof -
  have a: "starts_with_ignoring_case ''image/png'' ''image/''" by code_simp
  have b: "lower ''image/png'' = ''image/png''" by code_simp
  show ?thesis
    by (simp add: validate_image_response_unfold content_type_of_def png_response_def a b)
qed

lemma downloaded_png:
  "http_get E (length (requests st)) url = Inr (png_response content) \<Longrightarrow>
   downloaded L E url st = Some (get_safe_filename L url (Some ''image/png''), content)"
proof -
  have b: "body (png_response content) = Inr content" "http_error (png_response content) = None"
    by (simp_all add: png_response_def)
  assume "http_get E (length (requests st)) url = Inr (png_response content)"
  then show ?thesis by (simp add: downloaded_def validate_png_response b)
qed

text \<open>
  Claim C4 (the code departs from it). The index is written at line 95, before the file is
  saved. When the write then raises, the fetch returns false with the index changed: the
  digest of the payload now maps to a filename under which nothing was written, and a later
  fetch of the same payload, with a disk that works, is skipped as a duplicate and never
  saved.
\<close>

theorem index_mutated_on_failed_write:
  "fst (fetch_single_image L failing_disk_env url (init names)) = False
   \<and> downloaded_hashes (init names) (calculate_file_hash L [1, 2, 3]) = None
   \<and> downloaded_hashes (snd (fetch_single_image L failing_disk_env url (init names)))
        (calculate_file_hash L [1, 2, 3]) = Some (get_safe_filename L url (Some ''image/png''))
   \<and> existing (snd (fetch_single_image L failing_disk_env url (init names))) = names
   \<and> written (snd (fetch_single_image L failing_disk_env url (init names))) = []
   \<and> fst (fetch_single_image L demo_env url
            (snd (fetch_single_image L failing_disk_env url (init names)))) = False
   \<and> written (snd (fetch_single_image L demo_env url
            (snd (fetch_single_image L failing_disk_env url (init names))))) = []"
proof -
  let ?f = "get_safe_filename L url (Some ''image/png'')"
  let ?h = "calculate_file_hash L [1, 2, 3]"
  let ?st1 = "snd (fetch_single_image L failing_disk_env url (init names))"
  have g: "http_get failing_disk_env n u = Inr (png_response [1, 2, 3])" for n u
    by (simp add: failing_disk_env_def demo_env_def)
  have g': "http_get demo_env n u = Inr (png_response [1, 2, 3])" for n u
    by (simp add: demo_env_def)
  have d: "downloaded L failing_disk_env url (init names) = Some (?f, [1, 2, 3])"
    by (rule downloaded_png [OF g])
  have i0: "downloaded_hashes (init names) ?h = None" by (simp add: init_def)
  have dup: "is_duplicate_content L [1, 2, 3] ?f (connected url (init names))
      = (False, (connected url (init names))\<lparr>downloaded_hashes := (downloaded_hashes (init names))(?h \<mapsto> ?f)\<rparr>)"
    using is_duplicate_content_new [of "connected url (init names)" L "[1, 2, 3]" ?f] i0 by simp
  have tf: "try_fetch L failing_disk_env url (init names)
      = (Inl OtherException,
         (connected url (init names))\<lparr>downloaded_hashes := (downloaded_hashes (init names))(?h \<mapsto> ?f)\<rparr>)"
    using try_fetch_downloaded [OF d] dup
    by (simp add: save_file_def failing_disk_env_def)
  then have r: "fetch_single_image L failing_disk_env url (init names)
      = (False, (connected url (init names))
           \<lparr>downloaded_hashes := (downloaded_hashes (init names))(?h \<mapsto> ?f),
            console := console (connected url (init names)) @ [UnexpectedError url OtherException]\<rparr>)"
    by (simp add: fetch_single_image_def)
  have a: "fst (fetch_single_image L failing_disk_env url (init names)) = False"
    and b: "downloaded_hashes ?st1 ?h = Some ?f"
    and c: "existing ?st1 = names" "written ?st1 = []"
    by (simp_all add: r) (simp_all add: init_def)
  have d2: "downloaded L demo_env url ?st1 = Some (?f, [1, 2, 3])"
    by (rule downloaded_png [OF g'])
  from fetch_single_image_duplicate [OF d2 b]
  have e: "fst (fetch_single_image L demo_env url ?st1) = False"
    "written (snd (fetch_single_image L demo_env url ?st1)) = []"
    by (simp_all add: c)
  from a i0 b c e show ?thesis by blast
qed

text \<open>One fetch adds at most one name to the directory.\<close>

lemma fetch_single_image_one_file:
  "length (existing (snd (fetch_single_image L E url st))) \<le> length (existing st) + 1"
proof (cases "downloaded L E url st")
  case None
  from try_fetch_not_downloaded [OF None] obtain e
    where "try_fetch L E url st = (Inl e, connected url st)" ..
  then show ?thesis by (simp add: fetch_single_image_def)
next
  case (Some p)
  obtain filename content where p: "p = (filename, content)" by (cases p)
  have sf: "length (existing (snd (save_file L E f c s))) \<le> length (existing s) + 1" for f c s
    by (simp add: save_file_def Let_def split: write_outcome.splits)
  have dc: "existing (snd (is_duplicate_content L c f s)) = existing s" for f c s
    by (simp add: is_duplicate_content_def Let_def split: option.splits)
  obtain b s2 where i: "is_duplicate_content L content filename (connected url st) = (b, s2)"
    by (cases "is_duplicate_content L content filename (connected url st)")
  with dc [of content filename "connected url st"] have s2: "existing s2 = existing st" by simp
  have "length (existing (snd (try_fetch L E url st))) \<le> length (existing st) + 1"
    using try_fetch_downloaded [OF Some [unfolded p]] i s2 sf [of filename content s2]
    by (cases b) simp_all
  moreover have "existing (snd (fetch_single_image L E url st)) = existing (snd (try_fetch L E url st))"
    by (simp add: fetch_single_image_def split: prod.splits sum.splits)
  ultimately show ?thesis by simp
qed

end
